theory Spec2Isabelle
  imports Complex_Main
begin

section \<open>Data model\<close>

text \<open>
  The development embeds the compilation pipeline of
  \<^verbatim>\<open>Project/functions/compileFilesParallelPhase2.ts\<close> (transform and render stages) and
  of the orchestrator \<^verbatim>\<open>compileAndWriteFilesParallel\<close> (error gate, batched write stage,
  statistics).

  \<^verbatim>\<open>ts.DiagnosticCategory\<close> has four members; only \<open>Error\<close> stops the pipeline.
\<close>

datatype DiagnosticCategory = Warning | Error | Suggestion | Message

record Diagnostic =
  category :: DiagnosticCategory
  messageText :: string

text \<open>
  The three result shapes of the source share the field \<open>diagnostics\<close>, and the two
  per-file results share \<open>sourceFile\<close>:
  \<^verbatim>\<open>CompileResultWithAST { sourceFile, luauAST | null, diagnostics }\<close>,
  \<^verbatim>\<open>CompileResult { sourceFile, source: string | null, diagnostics }\<close> and
  \<^verbatim>\<open>ts.EmitResult { emitSkipped, diagnostics, emittedFiles? }\<close>.
  \<open>null\<close> and an omitted optional field are \<open>None\<close>.
\<close>

record WithDiagnostics =
  diagnostics :: "Diagnostic list"

record 'sf PerFile = WithDiagnostics +
  sourceFile :: 'sf

record ('sf, 'ast) CompileResultWithAST = "'sf PerFile" +
  luauAST :: "'ast option"

record 'sf CompileResult = "'sf PerFile" +
  source :: "string option"

record 'p EmitResult = WithDiagnostics +
  emitSkipped :: bool
  emittedFiles :: "'p list option"

text \<open>
  The collaborators that the pipeline imports from other packages are parameters of the
  model. \<open>'sf\<close> is \<^verbatim>\<open>ts.SourceFile\<close>, \<open>'ast\<close> the Luau AST, \<open>'p\<close> an output path and
  \<open>'ts\<close> everything the transformer may read and update between files
  (\<^verbatim>\<open>MultiTransformState\<close>, services, caches). \<open>transformSourceFile\<close> returns the AST,
  the diagnostics it reported to the global \<^verbatim>\<open>DiagnosticService\<close>, and its new state.
  \<open>getSourceFile\<close> is \<^verbatim>\<open>program.getSourceFile\<close>, which may answer \<open>undefined\<close>.
\<close>

record ('sf, 'ast, 'ts, 'p) collaborators =
  fileName :: "'sf \<Rightarrow> string"
  getSourceFile :: "string \<Rightarrow> 'sf option"
  getPreEmitDiagnostics :: "'sf \<Rightarrow> Diagnostic list"
  getCustomPreEmitDiagnostics :: "'sf \<Rightarrow> Diagnostic list"
  transformSourceFile :: "'ts \<Rightarrow> 'sf \<Rightarrow> 'ast \<times> Diagnostic list \<times> 'ts"
  renderAST :: "'ast \<Rightarrow> string"
  getOutputPath :: "string \<Rightarrow> 'p"
  writeOnlyChanged :: bool

datatype error = AssertionError

section \<open>Diagnostic collectors\<close>

text \<open>\<^verbatim>\<open>diagnostics.some(d => d.category === ts.DiagnosticCategory.Error)\<close>\<close>

definition hasErrors :: "Diagnostic list \<Rightarrow> bool" where
  "hasErrors ds = list_ex (\<lambda>d. category d = Error) ds"

text \<open>
  \<^verbatim>\<open>LocalDiagnosticCollector\<close>: a private array, \<open>addDiagnostics\<close> pushes at the end,
  \<open>getDiagnostics\<close> returns the array.
\<close>

type_synonym LocalDiagnosticCollector = "Diagnostic list"

definition newCollector :: LocalDiagnosticCollector where
  "newCollector = []"

definition addDiagnostics :: "LocalDiagnosticCollector \<Rightarrow> Diagnostic list \<Rightarrow> LocalDiagnosticCollector" where
  "addDiagnostics c ds = c @ ds"

definition getDiagnostics :: "LocalDiagnosticCollector \<Rightarrow> Diagnostic list" where
  "getDiagnostics c = c"

text \<open>
  Modelled from the spec: the class \<^verbatim>\<open>TSTransformer/classes/DiagnosticService\<close> is not
  among the sources. It is the single shared, run-scoped sink of the transformer: an
  ordered sequence of recorded diagnostics, \<open>hasErrors\<close> true iff a recorded diagnostic
  has Error severity, and \<open>flush\<close> draining the sink (it returns what was recorded and
  leaves the sink empty).
\<close>

type_synonym DiagnosticService = "Diagnostic list"

definition DiagnosticService_addDiagnostics :: "DiagnosticService \<Rightarrow> Diagnostic list \<Rightarrow> DiagnosticService" where
  "DiagnosticService_addDiagnostics sink ds = sink @ ds"

definition DiagnosticService_hasErrors :: "DiagnosticService \<Rightarrow> bool" where
  "DiagnosticService_hasErrors sink = hasErrors sink"

definition DiagnosticService_flush :: "DiagnosticService \<Rightarrow> Diagnostic list \<times> DiagnosticService" where
  "DiagnosticService_flush sink = (sink, [])"

section \<open>Transform stage\<close>

text \<open>
  \<^verbatim>\<open>compileSingleFileToAST\<close>. The state is the transformer's state paired with the
  content of the \<^verbatim>\<open>DiagnosticService\<close>. When the pre-emit diagnostics hold an Error the
  transformer is not called and the sink is not flushed.
\<close>

definition compileSingleFileToAST ::
  "('sf, 'ast, 'ts, 'p) collaborators \<Rightarrow> 'sf \<Rightarrow> 'ts \<times> DiagnosticService \<Rightarrow>
   ('sf, 'ast) CompileResultWithAST \<times> ('ts \<times> DiagnosticService)" where
  "compileSingleFileToAST env sf st =
     (let localDiagnostics =
            addDiagnostics (addDiagnostics newCollector (getPreEmitDiagnostics env sf))
              (getCustomPreEmitDiagnostics env sf)
      in if hasErrors localDiagnostics
         then (\<lparr>diagnostics = getDiagnostics localDiagnostics, sourceFile = sf, luauAST = None\<rparr>, st)
         else (case transformSourceFile env (fst st) sf of
                 (ast, reported, ts') \<Rightarrow>
                   (case DiagnosticService_flush (DiagnosticService_addDiagnostics (snd st) reported) of
                      (transformDiagnostics, sink') \<Rightarrow>
                        (let localDiagnostics' = addDiagnostics localDiagnostics transformDiagnostics
                         in if hasErrors localDiagnostics'
                            then (\<lparr>diagnostics = getDiagnostics localDiagnostics', sourceFile = sf,
                                    luauAST = None\<rparr>, (ts', sink'))
                            else (\<lparr>diagnostics = getDiagnostics localDiagnostics', sourceFile = sf,
                                    luauAST = Some ast\<rparr>, (ts', sink'))))))"

text \<open>
  Step 1 of \<^verbatim>\<open>compileFilesParallelPhase2\<close>: the \<open>for\<close> loop over \<open>sourceFiles\<close>, with
  \<open>astResults\<close> as accumulator. \<^verbatim>\<open>assert(sourceFile)\<close> throws when the program does not
  know the file name; \<open>break\<close> leaves the loop after the first result that carries an
  Error.
\<close>

fun transformLoop ::
  "('sf, 'ast, 'ts, 'p) collaborators \<Rightarrow> 'sf list \<Rightarrow> ('sf, 'ast) CompileResultWithAST list \<Rightarrow>
   'ts \<times> DiagnosticService \<Rightarrow>
   error + (('sf, 'ast) CompileResultWithAST list \<times> ('ts \<times> DiagnosticService))" where
  "transformLoop env [] astResults st = Inr (astResults, st)"
| "transformLoop env (f # rest) astResults st =
     (case getSourceFile env (fileName env f) of
        None \<Rightarrow> Inl AssertionError
      | Some sf \<Rightarrow>
          (case compileSingleFileToAST env sf st of
             (result, st') \<Rightarrow>
               if hasErrors (diagnostics result)
               then Inr (astResults @ [result], st')
               else transformLoop env rest (astResults @ [result]) st'))"

definition transformStage ::
  "('sf, 'ast, 'ts, 'p) collaborators \<Rightarrow> 'sf list \<Rightarrow> 'ts \<times> DiagnosticService \<Rightarrow>
   error + (('sf, 'ast) CompileResultWithAST list \<times> ('ts \<times> DiagnosticService))" where
  "transformStage env sourceFiles st = transformLoop env sourceFiles [] st"

section \<open>Render stage\<close>

text \<open>
  Step 2: \<^verbatim>\<open>astResults.map(astResult => ...)\<close>. The asynchronous variant wraps each call
  in a promise and awaits \<^verbatim>\<open>Promise.all\<close>, which returns the results by index, so both
  variants are this map.
\<close>

definition renderResult :: "('ast \<Rightarrow> string) \<Rightarrow> ('sf, 'ast) CompileResultWithAST \<Rightarrow> 'sf CompileResult" where
  "renderResult render astResult =
     (case luauAST astResult of
        None \<Rightarrow> \<lparr>diagnostics = diagnostics astResult, sourceFile = sourceFile astResult, source = None\<rparr>
      | Some ast \<Rightarrow>
          \<lparr>diagnostics = diagnostics astResult, sourceFile = sourceFile astResult,
           source = Some (render ast)\<rparr>)"

definition renderStage :: "('ast \<Rightarrow> string) \<Rightarrow> ('sf, 'ast) CompileResultWithAST list \<Rightarrow> 'sf CompileResult list" where
  "renderStage render astResults = map (renderResult render) astResults"

definition compileFilesParallelPhase2 ::
  "('sf, 'ast, 'ts, 'p) collaborators \<Rightarrow> 'sf list \<Rightarrow> 'ts \<times> DiagnosticService \<Rightarrow>
   error + ('sf CompileResult list \<times> ('ts \<times> DiagnosticService))" where
  "compileFilesParallelPhase2 env sourceFiles st =
     (case transformStage env sourceFiles st of
        Inl e \<Rightarrow> Inl e
      | Inr (astResults, st') \<Rightarrow> Inr (renderStage (renderAST env) astResults, st'))"

section \<open>Write stage\<close>

text \<open>
  The destination file system maps a path to the text of the regular file stored there.
  \<open>pathExists\<close>, \<open>readFile\<close> and \<open>outputFile\<close> are the fault-free behaviour of the
  \<^verbatim>\<open>fs-extra\<close> functions of the same names: \<open>readFile\<close> is only reached behind
  \<open>pathExists\<close> (its \<open>None\<close> stands for the rejected promise on a missing file), and
  \<open>outputFile\<close> creates the missing parent directories itself, so that a write to any
  path stores the text. File contents are compared as the decoded text that
  \<^verbatim>\<open>readFile(outPath, "utf8")\<close> returns.
\<close>

type_synonym 'p FileSystem = "'p \<rightharpoonup> string"

definition pathExists :: "'p FileSystem \<Rightarrow> 'p \<Rightarrow> bool" where
  "pathExists fs p = (fs p \<noteq> None)"

definition readFile :: "'p FileSystem \<Rightarrow> 'p \<Rightarrow> string option" where
  "readFile fs p = fs p"

definition outputFile :: "'p FileSystem \<Rightarrow> 'p \<Rightarrow> string \<Rightarrow> 'p FileSystem" where
  "outputFile fs p text = fs(p \<mapsto> text)"

text \<open>
  One write task, the body of \<^verbatim>\<open>batch.map(async (result) => ...)\<close>. The test
  \<^verbatim>\<open>if (result.source)\<close> is JavaScript truthiness: \<open>null\<close> and the empty string both
  fail it. The task returns the path it wrote, or \<open>null\<close>.
\<close>

definition writeTask ::
  "('sf, 'ast, 'ts, 'p) collaborators \<Rightarrow> 'sf CompileResult \<Rightarrow> 'p FileSystem \<Rightarrow>
   'p FileSystem \<times> 'p option" where
  "writeTask env result fs =
     (case source result of
        None \<Rightarrow> (fs, None)
      | Some text \<Rightarrow>
          if text = [] then (fs, None)
          else (let outPath = getOutputPath env (fileName env (sourceFile result));
                    shouldWrite = (\<not> writeOnlyChanged env \<or> \<not> pathExists fs outPath \<or>
                                   readFile fs outPath \<noteq> Some text)
                in if shouldWrite then (outputFile fs outPath text, Some outPath)
                   else (fs, None)))"

text \<open>
  \<^verbatim>\<open>await Promise.all(writeTasks)\<close> for one batch. The tasks of a batch run
  concurrently; each touches only its own destination path, and \<^verbatim>\<open>Promise.all\<close>
  returns the results by index. The model runs them in index order, which is the outcome
  of every interleaving when the destinations of the batch are pairwise distinct.
\<close>

fun writeTasks ::
  "('sf, 'ast, 'ts, 'p) collaborators \<Rightarrow> 'sf CompileResult list \<Rightarrow> 'p FileSystem \<Rightarrow>
   'p FileSystem \<times> 'p option list" where
  "writeTasks env [] fs = (fs, [])"
| "writeTasks env (result # rest) fs =
     (case writeTask env result fs of
        (fs1, p) \<Rightarrow> (case writeTasks env rest fs1 of (fs2, ps) \<Rightarrow> (fs2, p # ps)))"

text \<open>\<^verbatim>\<open>written.filter((p): p is string => p !== null)\<close>\<close>

definition nonNull :: "'p option list \<Rightarrow> 'p list" where
  "nonNull written = List.map_filter (\<lambda>p. p) written"

text \<open>\<^verbatim>\<open>for (const batch of batches)\<close>: the batches run strictly one after the other.\<close>

fun writeBatches ::
  "('sf, 'ast, 'ts, 'p) collaborators \<Rightarrow> 'sf CompileResult list list \<Rightarrow> 'p FileSystem \<Rightarrow>
   'p list \<Rightarrow> 'p FileSystem \<times> 'p list" where
  "writeBatches env [] fs emitted = (fs, emitted)"
| "writeBatches env (batch # rest) fs emitted =
     (case writeTasks env batch fs of
        (fs', written) \<Rightarrow> writeBatches env rest fs' (emitted @ nonNull written))"

text \<open>
  \<^verbatim>\<open>results.slice(i, i + BATCH_SIZE)\<close> on indices within \<open>0 .. length\<close>, and the loop
  \<^verbatim>\<open>for (let i = 0; i < results.length; i += BATCH_SIZE) batches.push(...)\<close>. The loop is
  written here for any step \<open>B\<close>; the orchestrator runs it with the constant
  \<open>BATCH_SIZE\<close>. With step 0 and a non-empty array the loop never ends, which is the
  value \<open>None\<close>.
\<close>

definition slice :: "nat \<Rightarrow> nat \<Rightarrow> 'a list \<Rightarrow> 'a list" where
  "slice start end xs = take (end - start) (drop start xs)"

partial_function (option) batchLoop ::
  "nat \<Rightarrow> 'a list \<Rightarrow> nat \<Rightarrow> 'a list list \<Rightarrow> 'a list list option" where
  "batchLoop B results i batches =
     (if i < length results
      then batchLoop B results (i + B) (batches @ [slice i (i + B) results])
      else Some batches)"

definition BATCH_SIZE :: nat where
  "BATCH_SIZE = 50"

text \<open>
  The batch partition in the words of the specification: contiguous batches of at most
  \<open>B\<close> entries, cut from the front.
\<close>

function specBatches :: "nat \<Rightarrow> 'a list \<Rightarrow> 'a list list" where
  "specBatches B xs =
     (if B = 0 \<or> xs = [] then [] else take B xs # specBatches B (drop B xs))"
  by pat_completeness auto
termination
  by (relation "measure (\<lambda>(B, xs). length xs)") auto

section \<open>Statistics\<close>

text \<open>
  \<^verbatim>\<open>totalTime / stats.total\<close> is a division of JavaScript numbers: it never throws,
  and a zero divisor gives \<open>NaN\<close> or an infinity. Finite quotients are kept exact; their
  rounding to a double and to two decimals by \<^verbatim>\<open>toFixed(2)\<close> is not modelled.
\<close>

datatype jsnumber = Finite rat | Infinity | NegInfinity | NaN

definition jsDivide :: "int \<Rightarrow> int \<Rightarrow> jsnumber" where
  "jsDivide a b =
     (if b = 0 then (if a = 0 then NaN else if 0 < a then Infinity else NegInfinity)
      else Finite (rat_of_int a / rat_of_int b))"

text \<open>What the statistics block prints with \<^verbatim>\<open>console.log\<close>.\<close>

record CompilationReport =
  total :: nat
  successful :: nat
  failed :: nat
  totalDiagnostics :: nat
  totalTime :: int
  average :: jsnumber
  writtenFiles :: nat
  skippedFiles :: int

definition makeReport :: "'sf CompileResult list \<Rightarrow> Diagnostic list \<Rightarrow> 'p list \<Rightarrow> int \<Rightarrow> CompilationReport" where
  "makeReport results allDiagnostics emitted elapsed =
     (let n = length results;
          ok = length (filter (\<lambda>r. source r \<noteq> None) results);
          bad = length (filter (\<lambda>r. source r = None) results)
      in \<lparr>total = n, successful = ok, failed = bad,
          totalDiagnostics = length allDiagnostics,
          totalTime = elapsed,
          average = jsDivide elapsed (int n),
          writtenFiles = length emitted,
          skippedFiles = int ok - int (length emitted)\<rparr>)"

section \<open>Orchestrator\<close>

text \<open>
  Everything the run reads and changes: the transformer's state, the content of the
  global \<^verbatim>\<open>DiagnosticService\<close>, the destination file system and the console.
\<close>

record ('ts, 'p) world =
  transformState :: 'ts
  diagnosticService :: DiagnosticService
  fileSystem :: "'p FileSystem"
  console :: "CompilationReport list"

text \<open>
  \<^verbatim>\<open>compileAndWriteFilesParallel\<close>, from the check of the \<^verbatim>\<open>DiagnosticService\<close> that
  follows Step 0 to the end. Step 0 (the custom TypeScript transformers of
  \<^verbatim>\<open>compilerOptions.plugins\<close>) consists of calls into other packages only; what it leaves
  behind --- the proxy program, the transformed source files and the diagnostics it added
  to the sink --- is the \<open>env\<close>, \<open>sourceFiles\<close> and \<open>diagnosticService\<close> that this function
  starts from. \<open>startTime\<close> and \<open>endTime\<close> are the two readings of \<^verbatim>\<open>Date.now()\<close>.
  A thrown assertion is \<open>Inl\<close>; the outer \<open>option\<close> is the batch loop's.
\<close>

definition compileAndWriteFilesParallel ::
  "('sf, 'ast, 'ts, 'p) collaborators \<Rightarrow> int \<Rightarrow> int \<Rightarrow> 'sf list \<Rightarrow> ('ts, 'p) world \<Rightarrow>
   (error + ('p EmitResult \<times> ('ts, 'p) world)) option" where
  "compileAndWriteFilesParallel env startTime endTime sourceFiles w =
     (if DiagnosticService_hasErrors (diagnosticService w)
      then (case DiagnosticService_flush (diagnosticService w) of
              (flushed, sink') \<Rightarrow>
                Some (Inr (\<lparr>diagnostics = flushed, emitSkipped = True, emittedFiles = None\<rparr>,
                           w\<lparr>diagnosticService := sink'\<rparr>)))
      else (case compileFilesParallelPhase2 env sourceFiles (transformState w, diagnosticService w) of
              Inl e \<Rightarrow> Some (Inl e)
            | Inr (results, (ts', sink')) \<Rightarrow>
                (let w1 = w\<lparr>transformState := ts', diagnosticService := sink'\<rparr>;
                     allDiagnostics = concat (map diagnostics results)
                 in if hasErrors allDiagnostics
                    then Some (Inr (\<lparr>diagnostics = allDiagnostics, emitSkipped = True,
                                      emittedFiles = None\<rparr>, w1))
                    else (case batchLoop BATCH_SIZE results 0 [] of
                            None \<Rightarrow> None
                          | Some batches \<Rightarrow>
                              (case writeBatches env batches (fileSystem w1) [] of
                                 (fs', emitted) \<Rightarrow>
                                   Some (Inr (\<lparr>diagnostics = allDiagnostics, emitSkipped = False,
                                                emittedFiles = Some emitted\<rparr>,
                                              w1\<lparr>fileSystem := fs',
                                                 console := console w1 @
                                                   [makeReport results allDiagnostics emitted
                                                      (endTime - startTime)]\<rparr>)))))))"

section \<open>Notions used in the statements\<close>



section \<open>Example collaborators\<close>

text \<open>
  A small instance on which the theorems are exercised. A source file is its name, the
  program knows four files, the transformer's state counts its calls, the AST of a file
  is its name, and the transformer reports an Error for \<^verbatim>\<open>bad.ts\<close> and a Warning for
  \<^verbatim>\<open>warn.ts\<close>.
\<close>

definition exampleError :: Diagnostic where
  "exampleError = \<lparr>category = Error, messageText = ''bad''\<rparr>"

definition exampleWarning :: Diagnostic where
  "exampleWarning = \<lparr>category = Warning, messageText = ''careful''\<rparr>"

definition exampleEnv :: "(string, string, nat, string) collaborators" where
  "exampleEnv =
     \<lparr>fileName = (\<lambda>sf. sf),
      getSourceFile = (\<lambda>name. if name \<in> set [''a.ts'', ''b.ts'', ''bad.ts'', ''warn.ts'']
                                 then Some name else None),
      getPreEmitDiagnostics = (\<lambda>sf. []),
      getCustomPreEmitDiagnostics = (\<lambda>sf. []),
      transformSourceFile = (\<lambda>ts sf.
         (sf,
          if sf = ''bad.ts'' then [exampleError]
          else if sf = ''warn.ts'' then [exampleWarning] else [],
          Suc ts)),
      renderAST = (\<lambda>ast. ''-- '' @ ast),
      getOutputPath = (\<lambda>name. name @ ''.luau''),
      writeOnlyChanged = True\<rparr>"

definition exampleWorld :: "(nat, string) world" where
  "exampleWorld =
     \<lparr>transformState = 0, diagnosticService = [], fileSystem = Map.empty, console = []\<rparr>"

text \<open>
  Variants of the example: a renderer that returns the empty string, the same
  collaborators with \<^verbatim>\<open>writeOnlyChanged\<close> unset, a world where the output of
  \<^verbatim>\<open>a.ts\<close> is already on disk, and five rendered results.
\<close>

definition emptyRenderEnv :: "(string, string, nat, string) collaborators" where
  "emptyRenderEnv = exampleEnv\<lparr>renderAST := (\<lambda>ast. []), writeOnlyChanged := False\<rparr>"




text \<open>
  Three more variants: a world whose diagnostic sink already holds an Error,
  collaborators whose path translator sends every file to the same destination, and
  collaborators whose transformer output depends on its state (the AST carries one mark
  per earlier call).
\<close>

definition dirtyWorld :: "(nat, string) world" where
  "dirtyWorld = exampleWorld\<lparr>diagnosticService := [exampleError]\<rparr>"


definition driftingEnv :: "(string, string, nat, string) collaborators" where
  "driftingEnv =
     exampleEnv\<lparr>transformSourceFile := (\<lambda>ts sf. (sf @ replicate ts CHR ''!'', [], Suc ts))\<rparr>"

section \<open>The transform stage: auxiliary facts\<close>

lemma compileSingleFileToAST_sourceFile:
  "sourceFile (fst (compileSingleFileToAST env sf st)) = sf"
  by (simp add: compileSingleFileToAST_def Let_def split: prod.splits)

lemma compileSingleFileToAST_invariant:
  "luauAST (fst (compileSingleFileToAST env sf st)) = None \<longleftrightarrow>
   hasErrors (diagnostics (fst (compileSingleFileToAST env sf st)))"
  by (simp add: compileSingleFileToAST_def Let_def getDiagnostics_def split: prod.splits)

lemma transformLoop_acc:
  "transformLoop env fs acc st =
   map_sum id (\<lambda>(rs, s). (acc @ rs, s)) (transformLoop env fs [] st)"
proof (induction fs arbitrary: acc st)
  case Nil
  then show ?case by simp
next
  case (Cons f fs)
  show ?case
  proof (cases "getSourceFile env (fileName env f)")
    case None
    then show ?thesis by simp
  next
    case (Some sf)
    obtain r st' where c: "compileSingleFileToAST env sf st = (r, st')"
      by (cases "compileSingleFileToAST env sf st")
    show ?thesis
    proof (cases "hasErrors (diagnostics r)")
      case True
      with Some c show ?thesis by simp
    next
      case False
      have i1: "transformLoop env fs (acc @ [r]) st' =
                map_sum id (\<lambda>(rs, s). ((acc @ [r]) @ rs, s)) (transformLoop env fs [] st')"
        by (rule Cons.IH)
      have i2: "transformLoop env fs [r] st' =
                map_sum id (\<lambda>(rs, s). ([r] @ rs, s)) (transformLoop env fs [] st')"
        by (rule Cons.IH)
      show ?thesis
        using Some c False
        by (cases "transformLoop env fs [] st'") (auto simp add: i1 i2)
    qed
  qed
qed


lemma transformStage_Nil: "transformStage env [] st = Inr ([], st)"
  by (simp add: transformStage_def)

lemma transformStage_Cons:
  "transformStage env (f # fs) st =
     (case getSourceFile env (fileName env f) of
        None \<Rightarrow> Inl AssertionError
      | Some sf \<Rightarrow>
          (case compileSingleFileToAST env sf st of
             (r, st') \<Rightarrow>
               if hasErrors (diagnostics r) then Inr ([r], st')
               else map_sum id (\<lambda>(rs, s). (r # rs, s)) (transformStage env fs st')))"
  unfolding transformStage_def
  by (simp add: transformLoop_acc[of env fs "[r]" for r] split: option.splits prod.splits)

lemma transformStage_ConsE:
  assumes "transformStage env (f # fs) st = Inr (rs, st2)"
  obtains sf r st1 where "getSourceFile env (fileName env f) = Some sf"
    and "compileSingleFileToAST env sf st = (r, st1)"
    and "hasErrors (diagnostics r) \<Longrightarrow> rs = [r] \<and> st2 = st1"
    and "\<not> hasErrors (diagnostics r) \<Longrightarrow>
           \<exists>rs'. rs = r # rs' \<and> transformStage env fs st1 = Inr (rs', st2)"
proof -
  from assms obtain sf where sf: "getSourceFile env (fileName env f) = Some sf"
    by (cases "getSourceFile env (fileName env f)") (auto simp add: transformStage_Cons)
  obtain r st1 where c: "compileSingleFileToAST env sf st = (r, st1)"
    by (cases "compileSingleFileToAST env sf st")
  have e: "hasErrors (diagnostics r) \<Longrightarrow> rs = [r] \<and> st2 = st1"
    using assms sf c by (simp add: transformStage_Cons)
  have n: "\<not> hasErrors (diagnostics r) \<Longrightarrow>
           \<exists>rs'. rs = r # rs' \<and> transformStage env fs st1 = Inr (rs', st2)"
    using assms sf c by (cases "transformStage env fs st1") (auto simp add: transformStage_Cons)
  from sf c e n show thesis by (rule that)
qed

lemma transformStage_returns:
  "\<forall>f \<in> set fs. getSourceFile env (fileName env f) \<noteq> None \<Longrightarrow>
   \<exists>rs st'. transformStage env fs st = Inr (rs, st')"
proof (induction fs arbitrary: st)
  case Nil
  then show ?case by (simp add: transformStage_Nil)
next
  case (Cons f fs)
  then obtain sf where sf: "getSourceFile env (fileName env f) = Some sf" by auto
  obtain r st1 where c: "compileSingleFileToAST env sf st = (r, st1)"
    by (cases "compileSingleFileToAST env sf st")
  from Cons obtain rs' st2 where "transformStage env fs st1 = Inr (rs', st2)" by fastforce
  with sf c show ?case by (simp add: transformStage_Cons)
qed

lemma transformStage_length:
  "transformStage env fs st = Inr (rs, st') \<Longrightarrow> length rs \<le> length fs"
proof (induction fs arbitrary: st rs)
  case Nil
  then show ?case by (simp add: transformStage_Nil)
next
  case (Cons f fs)
  from Cons.prems show ?case
  proof (rule transformStage_ConsE)
    fix sf r st1
    assume e: "hasErrors (diagnostics r) \<Longrightarrow> rs = [r] \<and> st' = st1"
      and n: "\<not> hasErrors (diagnostics r) \<Longrightarrow>
           \<exists>rs'. rs = r # rs' \<and> transformStage env fs st1 = Inr (rs', st')"
    show ?thesis
    proof (cases "hasErrors (diagnostics r)")
      case True
      with e show ?thesis by simp
    next
      case False
      with n Cons.IH show ?thesis by fastforce
    qed
  qed
qed

lemma transformStage_sourceFiles:
  "transformStage env fs st = Inr (rs, st') \<Longrightarrow>
   map (\<lambda>r. Some (sourceFile r)) rs = map (\<lambda>f. getSourceFile env (fileName env f)) (take (length rs) fs)"
proof (induction fs arbitrary: st rs)
  case Nil
  then show ?case by (simp add: transformStage_Nil)
next
  case (Cons f fs)
  from Cons.prems show ?case
  proof (rule transformStage_ConsE)
    fix sf r st1
    assume sf: "getSourceFile env (fileName env f) = Some sf"
      and c: "compileSingleFileToAST env sf st = (r, st1)"
      and e: "hasErrors (diagnostics r) \<Longrightarrow> rs = [r] \<and> st' = st1"
      and n: "\<not> hasErrors (diagnostics r) \<Longrightarrow>
           \<exists>rs'. rs = r # rs' \<and> transformStage env fs st1 = Inr (rs', st')"
    have r: "sourceFile r = sf"
      using compileSingleFileToAST_sourceFile[of env sf st] c by simp
    show ?thesis
    proof (cases "hasErrors (diagnostics r)")
      case True
      with e sf r show ?thesis by simp
    next
      case False
      with n obtain rs' where "rs = r # rs'" "transformStage env fs st1 = Inr (rs', st')" by blast
      with Cons.IH[of st1 rs'] sf r show ?thesis by simp
    qed
  qed
qed


lemma transformStage_invariant:
  "transformStage env fs st = Inr (rs, st') \<Longrightarrow> r \<in> set rs \<Longrightarrow>
   (luauAST r = None \<longleftrightarrow> hasErrors (diagnostics r))"
proof (induction fs arbitrary: st rs)
  case Nil
  then show ?case by (simp add: transformStage_Nil)
next
  case (Cons f fs)
  from Cons.prems(1) show ?case
  proof (rule transformStage_ConsE)
    fix sf r0 st1
    assume c: "compileSingleFileToAST env sf st = (r0, st1)"
      and e: "hasErrors (diagnostics r0) \<Longrightarrow> rs = [r0] \<and> st' = st1"
      and n: "\<not> hasErrors (diagnostics r0) \<Longrightarrow>
           \<exists>rs'. rs = r0 # rs' \<and> transformStage env fs st1 = Inr (rs', st')"
    have r0: "luauAST r0 = None \<longleftrightarrow> hasErrors (diagnostics r0)"
      using compileSingleFileToAST_invariant[of env sf st] c by simp
    show ?thesis
    proof (cases "hasErrors (diagnostics r0)")
      case True
      with e r0 Cons.prems(2) show ?thesis by simp
    next
      case False
      with n obtain rs' where "rs = r0 # rs'" "transformStage env fs st1 = Inr (rs', st')" by blast
      with Cons.IH[of st1 rs'] r0 Cons.prems(2) show ?thesis by auto
    qed
  qed
qed

lemma transformStage_earlier_clean:
  "transformStage env fs st = Inr (rs, st') \<Longrightarrow> Suc i < length rs \<Longrightarrow>
   \<not> hasErrors (diagnostics (rs ! i))"
proof (induction fs arbitrary: st rs i)
  case Nil
  then show ?case by (simp add: transformStage_Nil)
next
  case (Cons f fs)
  from Cons.prems(1) show ?case
  proof (rule transformStage_ConsE)
    fix sf r0 st1
    assume e: "hasErrors (diagnostics r0) \<Longrightarrow> rs = [r0] \<and> st' = st1"
      and n: "\<not> hasErrors (diagnostics r0) \<Longrightarrow>
           \<exists>rs'. rs = r0 # rs' \<and> transformStage env fs st1 = Inr (rs', st')"
    show ?thesis
    proof (cases "hasErrors (diagnostics r0)")
      case True
      with e Cons.prems(2) show ?thesis by simp
    next
      case False
      with n obtain rs' where rs: "rs = r0 # rs'" "transformStage env fs st1 = Inr (rs', st')" by blast
      show ?thesis
      proof (cases i)
        case 0
        with rs False show ?thesis by simp
      next
        case (Suc j)
        with rs Cons.prems(2) Cons.IH[of st1 rs' j] show ?thesis by simp
      qed
    qed
  qed
qed

lemma transformStage_complete:
  "transformStage env fs st = Inr (rs, st') \<Longrightarrow>
   \<forall>r \<in> set rs. \<not> hasErrors (diagnostics r) \<Longrightarrow> length rs = length fs"
proof (induction fs arbitrary: st rs)
  case Nil
  then show ?case by (simp add: transformStage_Nil)
next
  case (Cons f fs)
  from Cons.prems(1) show ?case
  proof (rule transformStage_ConsE)
    fix sf r0 st1
    assume e: "hasErrors (diagnostics r0) \<Longrightarrow> rs = [r0] \<and> st' = st1"
      and n: "\<not> hasErrors (diagnostics r0) \<Longrightarrow>
           \<exists>rs'. rs = r0 # rs' \<and> transformStage env fs st1 = Inr (rs', st')"
    show ?thesis
    proof (cases "hasErrors (diagnostics r0)")
      case True
      with e Cons.prems(2) show ?thesis by simp
    next
      case False
      with n obtain rs' where rs: "rs = r0 # rs'" "transformStage env fs st1 = Inr (rs', st')" by blast
      with Cons.prems(2) Cons.IH[of st1 rs'] show ?thesis by simp
    qed
  qed
qed

lemma transformStage_fail_fast:
  "transformStage env fs st = Inr (rs, st') \<Longrightarrow>
   \<exists>r \<in> set rs. hasErrors (diagnostics r) \<Longrightarrow>
   rs \<noteq> [] \<and> hasErrors (diagnostics (last rs)) \<and>
   transformStage env (take (length rs) fs @ later) st = Inr (rs, st')"
proof (induction fs arbitrary: st rs)
  case Nil
  then show ?case by (simp add: transformStage_Nil)
next
  case (Cons f fs)
  from Cons.prems(1) show ?case
  proof (rule transformStage_ConsE)
    fix sf r0 st1
    assume sf: "getSourceFile env (fileName env f) = Some sf"
      and c: "compileSingleFileToAST env sf st = (r0, st1)"
      and e: "hasErrors (diagnostics r0) \<Longrightarrow> rs = [r0] \<and> st' = st1"
      and n: "\<not> hasErrors (diagnostics r0) \<Longrightarrow>
           \<exists>rs'. rs = r0 # rs' \<and> transformStage env fs st1 = Inr (rs', st')"
    show ?thesis
    proof (cases "hasErrors (diagnostics r0)")
      case True
      with e sf c show ?thesis by (simp add: transformStage_Cons)
    next
      case False
      with n obtain rs' where rs: "rs = r0 # rs'" "transformStage env fs st1 = Inr (rs', st')" by blast
      from rs Cons.prems(2) False have "\<exists>r \<in> set rs'. hasErrors (diagnostics r)" by auto
      from Cons.IH[OF rs(2) this]
      have "rs' \<noteq> []" "hasErrors (diagnostics (last rs'))"
        "transformStage env (take (length rs') fs @ later) st1 = Inr (rs', st')" by simp_all
      with rs sf c False show ?thesis by (simp add: transformStage_Cons)
    qed
  qed
qed

section \<open>The batch loop: auxiliary facts\<close>

declare specBatches.simps [simp del]

lemma specBatches_empty: "specBatches B [] = []"
  by (subst specBatches.simps) simp

lemma specBatches_step:
  "0 < B \<Longrightarrow> xs \<noteq> [] \<Longrightarrow> specBatches B xs = take B xs # specBatches B (drop B xs)"
  by (subst specBatches.simps) simp

lemma concat_specBatches: "0 < B \<Longrightarrow> concat (specBatches B xs) = xs"
proof (induction B xs rule: specBatches.induct)
  case (1 B xs)
  show ?case
  proof (cases "xs = []")
    case True
    then show ?thesis by (simp add: specBatches_empty)
  next
    case False
    from "1.prems"(1) False have step: "specBatches B xs = take B xs # specBatches B (drop B xs)"
      by (rule specBatches_step)
    from "1.IH" False "1.prems" have "concat (specBatches B (drop B xs)) = drop B xs" by simp
    with step show ?thesis by simp
  qed
qed






lemma batchLoop_specBatches:
  "0 < B \<Longrightarrow> batchLoop B results i batches = Some (batches @ specBatches B (drop i results))"
proof (induction "length results - i" arbitrary: i batches rule: less_induct)
  case less
  show ?case
  proof (cases "i < length results")
    case True
    have s1: "batchLoop B results i batches =
          batchLoop B results (i + B) (batches @ [take B (drop i results)])"
      using True by (subst batchLoop.simps) (simp add: slice_def)
    have "length results - (i + B) < length results - i"
      using True less.prems by simp
    then have s2: "batchLoop B results (i + B) (batches @ [take B (drop i results)]) =
        Some ((batches @ [take B (drop i results)]) @ specBatches B (drop (i + B) results))"
      using less.prems by (rule less.hyps)
    have s4: "drop (i + B) results = drop B (drop i results)"
      by (simp add: add.commute)
    from True have "drop i results \<noteq> []" by simp
    with less.prems have s5: "specBatches B (drop i results) =
        take B (drop i results) # specBatches B (drop B (drop i results))"
      by (rule specBatches_step)
    show ?thesis
      unfolding s1 s2 s4 s5 by simp
  next
    case False
    then show ?thesis
      by (subst batchLoop.simps) (simp add: specBatches_empty)
  qed
qed


section \<open>The write tasks: auxiliary facts\<close>





lemma writeTasks_Cons:
  "writeTasks env (r # rs) fs =
     (fst (writeTasks env rs (fst (writeTask env r fs))),
      snd (writeTask env r fs) # snd (writeTasks env rs (fst (writeTask env r fs))))"
  by (simp split: prod.splits)



lemma writeTasks_append:
  "writeTasks env (xs @ ys) fs =
     (fst (writeTasks env ys (fst (writeTasks env xs fs))),
      snd (writeTasks env xs fs) @ snd (writeTasks env ys (fst (writeTasks env xs fs))))"
  by (induction xs arbitrary: fs) (simp_all add: writeTasks_Cons del: writeTasks.simps(2))

lemma nonNull_Nil: "nonNull [] = []"
  by (simp add: nonNull_def)

lemma nonNull_Cons:
  "nonNull (p # ps) = (case p of None \<Rightarrow> nonNull ps | Some q \<Rightarrow> q # nonNull ps)"
  by (cases p) (simp_all add: nonNull_def)

lemma nonNull_append: "nonNull (xs @ ys) = nonNull xs @ nonNull ys"
  by (induction xs) (simp_all add: nonNull_Nil nonNull_Cons split: option.splits)


lemma writeBatches_concat:
  "writeBatches env batches fs emitted =
     (fst (writeTasks env (concat batches) fs),
      emitted @ nonNull (snd (writeTasks env (concat batches) fs)))"
proof (induction batches arbitrary: fs emitted)
  case Nil
  then show ?case by (simp add: nonNull_Nil)
next
  case (Cons b bs)
  show ?case
    by (simp add: Cons.IH writeTasks_append nonNull_append split: prod.splits)
qed




section \<open>The render stage: auxiliary facts\<close>

lemma renderResult_fields:
  "sourceFile (renderResult render a) = sourceFile a"
  "diagnostics (renderResult render a) = diagnostics a"
  "source (renderResult render a) = map_option render (luauAST a)"
  by (simp_all add: renderResult_def split: option.splits)

lemma compileFilesParallelPhase2_Inr:
  "compileFilesParallelPhase2 env sourceFiles st = Inr (results, st') \<longleftrightarrow>
   (\<exists>astResults. transformStage env sourceFiles st = Inr (astResults, st') \<and>
      results = renderStage (renderAST env) astResults)"
  by (auto simp add: compileFilesParallelPhase2_def split: sum.splits)

lemma renderStage_absent_iff:
  assumes "\<forall>a \<in> set astResults. luauAST a = None \<longleftrightarrow> hasErrors (diagnostics a)"
    and "r \<in> set (renderStage render astResults)"
  shows "source r = None \<longleftrightarrow> hasErrors (diagnostics r)"
proof -
  from assms(2) obtain a where a: "a \<in> set astResults" "r = renderResult render a"
    by (auto simp add: renderStage_def)
  with assms(1) show ?thesis by (simp add: renderResult_fields)
qed

section \<open>The example run\<close>

lemmas stage_defs =
  transformStage_def compileSingleFileToAST_def hasErrors_def newCollector_def
  addDiagnostics_def getDiagnostics_def DiagnosticService_addDiagnostics_def
  DiagnosticService_flush_def DiagnosticService_hasErrors_def

lemma example_transform:
  "transformStage exampleEnv [''a.ts'', ''bad.ts'', ''b.ts''] (0, []) =
     Inr ([\<lparr>diagnostics = [], sourceFile = ''a.ts'', luauAST = Some ''a.ts''\<rparr>,
           \<lparr>diagnostics = [exampleError], sourceFile = ''bad.ts'', luauAST = None\<rparr>],
          (2, []))"
  by (simp add: stage_defs exampleEnv_def exampleError_def)

lemma example_compile:
  "compileFilesParallelPhase2 exampleEnv [''a.ts'', ''bad.ts'', ''b.ts''] (0, []) =
     Inr ([\<lparr>diagnostics = [], sourceFile = ''a.ts'', source = Some ''-- a.ts''\<rparr>,
           \<lparr>diagnostics = [exampleError], sourceFile = ''bad.ts'', source = None\<rparr>],
          (2, []))"
  unfolding compileFilesParallelPhase2_def example_transform
  by (simp add: renderStage_def renderResult_def exampleEnv_def)

section \<open>The orchestrator: auxiliary facts\<close>


lemma BATCH_SIZE_pos: "0 < BATCH_SIZE"
  by (simp add: BATCH_SIZE_def)

lemma orchestrator_dirty:
  assumes "DiagnosticService_hasErrors (diagnosticService w)"
  shows "compileAndWriteFilesParallel env t0 t1 sourceFiles w =
           Some (Inr (\<lparr>diagnostics = diagnosticService w, emitSkipped = True, emittedFiles = None\<rparr>,
                      w\<lparr>diagnosticService := []\<rparr>))"
  using assms by (simp add: compileAndWriteFilesParallel_def DiagnosticService_flush_def)

lemma orchestrator_thrown:
  assumes "\<not> DiagnosticService_hasErrors (diagnosticService w)"
    and "compileFilesParallelPhase2 env sourceFiles (transformState w, diagnosticService w) = Inl e"
  shows "compileAndWriteFilesParallel env t0 t1 sourceFiles w = Some (Inl e)"
  using assms by (simp add: compileAndWriteFilesParallel_def)

lemma orchestrator_failed:
  assumes "\<not> DiagnosticService_hasErrors (diagnosticService w)"
    and "compileFilesParallelPhase2 env sourceFiles (transformState w, diagnosticService w) =
           Inr (results, (ts', sink'))"
    and "hasErrors (concat (map diagnostics results))"
  shows "compileAndWriteFilesParallel env t0 t1 sourceFiles w =
           Some (Inr (\<lparr>diagnostics = concat (map diagnostics results), emitSkipped = True,
                        emittedFiles = None\<rparr>,
                      w\<lparr>transformState := ts', diagnosticService := sink'\<rparr>))"
  using assms by (simp add: compileAndWriteFilesParallel_def Let_def)

lemma orchestrator_success:
  assumes "\<not> DiagnosticService_hasErrors (diagnosticService w)"
    and "compileFilesParallelPhase2 env sourceFiles (transformState w, diagnosticService w) =
           Inr (results, (ts', sink'))"
    and "\<not> hasErrors (concat (map diagnostics results))"
  shows "compileAndWriteFilesParallel env t0 t1 sourceFiles w =
           Some (Inr (\<lparr>diagnostics = concat (map diagnostics results), emitSkipped = False,
                        emittedFiles = Some (nonNull (snd (writeTasks env results (fileSystem w))))\<rparr>,
                      w\<lparr>transformState := ts', diagnosticService := sink',
                        fileSystem := fst (writeTasks env results (fileSystem w)),
                        console := console w @
                          [makeReport results (concat (map diagnostics results))
                             (nonNull (snd (writeTasks env results (fileSystem w)))) (t1 - t0)]\<rparr>))"
  using assms BATCH_SIZE_pos
  by (simp add: compileAndWriteFilesParallel_def Let_def batchLoop_specBatches
      writeBatches_concat concat_specBatches)














section \<open>Further example runs\<close>

lemmas pipeline_defs =
  compileFilesParallelPhase2_def renderStage_def renderResult_def stage_defs

lemmas write_defs =
  writeTask_def pathExists_def readFile_def outputFile_def nonNull_def makeReport_def
  jsDivide_def

lemma example_run_failed:
  "compileAndWriteFilesParallel exampleEnv 0 5 [''a.ts'', ''bad.ts'', ''b.ts''] exampleWorld =
     Some (Inr (\<lparr>diagnostics = [exampleError], emitSkipped = True, emittedFiles = None\<rparr>,
                exampleWorld\<lparr>transformState := 2, diagnosticService := []\<rparr>))"
proof -
  have a: "\<not> DiagnosticService_hasErrors (diagnosticService exampleWorld)"
    by (simp add: DiagnosticService_hasErrors_def hasErrors_def exampleWorld_def)
  have b: "compileFilesParallelPhase2 exampleEnv [''a.ts'', ''bad.ts'', ''b.ts'']
             (transformState exampleWorld, diagnosticService exampleWorld) =
           Inr ([\<lparr>diagnostics = [], sourceFile = ''a.ts'', source = Some ''-- a.ts''\<rparr>,
                 \<lparr>diagnostics = [exampleError], sourceFile = ''bad.ts'', source = None\<rparr>], (2, []))"
    using example_compile by (simp add: exampleWorld_def)
  have c: "hasErrors (concat (map diagnostics
             [\<lparr>diagnostics = [], sourceFile = ''a.ts'', source = Some ''-- a.ts''\<rparr>,
              \<lparr>diagnostics = [exampleError], sourceFile = ''bad.ts'', source = None\<rparr>]))"
    by (simp add: hasErrors_def exampleError_def)
  from orchestrator_failed[OF a b c, of 0 5] show ?thesis by simp
qed

lemma emptyRender_compile:
  "compileFilesParallelPhase2 emptyRenderEnv [''a.ts''] (0, []) =
     Inr ([\<lparr>diagnostics = [], sourceFile = ''a.ts'', source = Some ''''\<rparr>], (1, []))"
  by (simp add: pipeline_defs emptyRenderEnv_def exampleEnv_def)


lemma example_clean: "\<not> DiagnosticService_hasErrors (diagnosticService exampleWorld)"
  by (simp add: DiagnosticService_hasErrors_def hasErrors_def exampleWorld_def)





section \<open>Claims about the transform and render stages\<close>

text \<open>
  Claim C1. The transform stage processes the units strictly in input order and returns
  results for a prefix of them. Provided the program knows every unit (the assertion of
  the loop holds), the stage returns; the source files of the results are those of the
  first units, in order; every result but the last is free of Error diagnostics; when no
  result carries an Error there is one result per unit; otherwise the last result is the
  one carrying the Error, its AST is absent, and no later unit is attempted: the results
  and the final state of the transformer and of the diagnostic sink are the same
  whatever units follow the failing one, so no result and no diagnostic comes from a
  later unit.
\<close>

theorem transform_stage_fail_fast_prefix:
  assumes "\<forall>f \<in> set sourceFiles. getSourceFile env (fileName env f) \<noteq> None"
  shows "\<exists>astResults st'.
           transformStage env sourceFiles st = Inr (astResults, st') \<and>
           length astResults \<le> length sourceFiles \<and>
           map (\<lambda>r. Some (sourceFile r)) astResults =
             map (\<lambda>f. getSourceFile env (fileName env f)) (take (length astResults) sourceFiles) \<and>
           (\<forall>i. Suc i < length astResults \<longrightarrow> \<not> hasErrors (diagnostics (astResults ! i))) \<and>
           ((\<forall>r \<in> set astResults. \<not> hasErrors (diagnostics r)) \<longrightarrow>
              length astResults = length sourceFiles) \<and>
           ((\<exists>r \<in> set astResults. hasErrors (diagnostics r)) \<longrightarrow>
              astResults \<noteq> [] \<and> hasErrors (diagnostics (last astResults)) \<and>
              luauAST (last astResults) = None \<and>
              (\<forall>later. transformStage env (take (length astResults) sourceFiles @ later) st =
                 Inr (astResults, st')))"
proof -
  from assms obtain rs st' where run: "transformStage env sourceFiles st = Inr (rs, st')"
    using transformStage_returns by blast
  have len: "length rs \<le> length sourceFiles"
    using run by (rule transformStage_length)
  have files: "map (\<lambda>r. Some (sourceFile r)) rs =
      map (\<lambda>f. getSourceFile env (fileName env f)) (take (length rs) sourceFiles)"
    using run by (rule transformStage_sourceFiles)
  have clean: "\<forall>i. Suc i < length rs \<longrightarrow> \<not> hasErrors (diagnostics (rs ! i))"
    using run transformStage_earlier_clean by blast
  have full: "(\<forall>r \<in> set rs. \<not> hasErrors (diagnostics r)) \<longrightarrow> length rs = length sourceFiles"
    using run transformStage_complete by blast
  have stop: "(\<exists>r \<in> set rs. hasErrors (diagnostics r)) \<longrightarrow>
      rs \<noteq> [] \<and> hasErrors (diagnostics (last rs)) \<and> luauAST (last rs) = None \<and>
      (\<forall>later. transformStage env (take (length rs) sourceFiles @ later) st = Inr (rs, st'))"
  proof
    assume e: "\<exists>r \<in> set rs. hasErrors (diagnostics r)"
    have ff: "\<And>later. rs \<noteq> [] \<and> hasErrors (diagnostics (last rs)) \<and>
        transformStage env (take (length rs) sourceFiles @ later) st = Inr (rs, st')"
      using run e by (rule transformStage_fail_fast)
    then have "last rs \<in> set rs" by simp
    with run have "luauAST (last rs) = None \<longleftrightarrow> hasErrors (diagnostics (last rs))"
      by (rule transformStage_invariant)
    with ff show "rs \<noteq> [] \<and> hasErrors (diagnostics (last rs)) \<and> luauAST (last rs) = None \<and>
      (\<forall>later. transformStage env (take (length rs) sourceFiles @ later) st = Inr (rs, st'))"
      by simp
  qed
  from run len files clean full stop show ?thesis by blast
qed

theorem transform_stage_fail_fast_prefix_witness:
  "transformStage exampleEnv [''a.ts'', ''bad.ts'', ''b.ts''] (0, []) =
     Inr ([\<lparr>diagnostics = [], sourceFile = ''a.ts'', luauAST = Some ''a.ts''\<rparr>,
           \<lparr>diagnostics = [exampleError], sourceFile = ''bad.ts'', luauAST = None\<rparr>],
          (2, [])) \<and>
   transformStage exampleEnv ([''a.ts'', ''bad.ts''] @ [''missing.ts'']) (0, []) =
     Inr ([\<lparr>diagnostics = [], sourceFile = ''a.ts'', luauAST = Some ''a.ts''\<rparr>,
           \<lparr>diagnostics = [exampleError], sourceFile = ''bad.ts'', luauAST = None\<rparr>],
          (2, []))"
proof -
  have known: "\<forall>f \<in> set [''a.ts'', ''bad.ts'', ''b.ts''].
      getSourceFile exampleEnv (fileName exampleEnv f) \<noteq> None"
    by (simp add: exampleEnv_def)
  have err: "hasErrors [exampleError]"
    by (simp add: hasErrors_def exampleError_def)
  from transform_stage_fail_fast_prefix[OF known, of "(0, [])"] example_transform err
  show ?thesis by auto
qed

text \<open>
  Claim C7. The render stage returns one result per intermediate result, in the same
  order, with the source file and the diagnostics unchanged. Where the AST is present the
  text is the renderer's output for it; where the AST is absent the text is absent and
  the result is the same whatever the renderer is, so the renderer is not consulted.
\<close>

theorem render_stage_pointwise:
  "length (renderStage render astResults) = length astResults \<and>
   (\<forall>i < length astResults.
      sourceFile (renderStage render astResults ! i) = sourceFile (astResults ! i) \<and>
      diagnostics (renderStage render astResults ! i) = diagnostics (astResults ! i) \<and>
      source (renderStage render astResults ! i) = map_option render (luauAST (astResults ! i)) \<and>
      (luauAST (astResults ! i) = None \<longrightarrow>
         source (renderStage render astResults ! i) = None \<and>
         renderStage render' astResults ! i = renderStage render astResults ! i))"
proof -
  have a: "\<And>i. i < length astResults \<Longrightarrow> luauAST (astResults ! i) = None \<Longrightarrow>
      renderStage render' astResults ! i = renderStage render astResults ! i"
    by (simp add: renderStage_def renderResult_def)
  have b: "\<And>i. i < length astResults \<Longrightarrow>
      sourceFile (renderStage render astResults ! i) = sourceFile (astResults ! i) \<and>
      diagnostics (renderStage render astResults ! i) = diagnostics (astResults ! i) \<and>
      source (renderStage render astResults ! i) = map_option render (luauAST (astResults ! i))"
    by (simp add: renderStage_def renderResult_fields)
  have c: "length (renderStage render astResults) = length astResults"
    by (simp add: renderStage_def)
  have d: "\<And>i. i < length astResults \<Longrightarrow> luauAST (astResults ! i) = None \<Longrightarrow>
      source (renderStage render astResults ! i) = None"
    by (simp add: renderStage_def renderResult_fields)
  show ?thesis
  proof (intro conjI allI impI)
    show "length (renderStage render astResults) = length astResults" by (rule c)
  next
    fix i assume "i < length astResults"
    then show "sourceFile (renderStage render astResults ! i) = sourceFile (astResults ! i)"
      using b by blast
  next
    fix i assume "i < length astResults"
    then show "diagnostics (renderStage render astResults ! i) = diagnostics (astResults ! i)"
      using b by blast
  next
    fix i assume "i < length astResults"
    then show "source (renderStage render astResults ! i) = map_option render (luauAST (astResults ! i))"
      using b by blast
  next
    fix i assume "i < length astResults" "luauAST (astResults ! i) = None"
    then show "source (renderStage render astResults ! i) = None" by (rule d)
  next
    fix i assume "i < length astResults" "luauAST (astResults ! i) = None"
    then show "renderStage render' astResults ! i = renderStage render astResults ! i" by (rule a)
  qed
qed

theorem render_stage_pointwise_witness:
  "length (renderStage (renderAST exampleEnv)
     [\<lparr>diagnostics = [], sourceFile = ''a.ts'', luauAST = Some ''a.ts''\<rparr>,
      \<lparr>diagnostics = [exampleError], sourceFile = ''bad.ts'', luauAST = None\<rparr>]) = 2 \<and>
   source (renderStage (renderAST exampleEnv)
     [\<lparr>diagnostics = [], sourceFile = ''a.ts'', luauAST = Some ''a.ts''\<rparr>,
      \<lparr>diagnostics = [exampleError], sourceFile = ''bad.ts'', luauAST = None\<rparr>] ! 0) = Some ''-- a.ts'' \<and>
   renderStage (\<lambda>ast. ''unused'')
     [\<lparr>diagnostics = [], sourceFile = ''a.ts'', luauAST = Some ''a.ts''\<rparr>,
      \<lparr>diagnostics = [exampleError], sourceFile = ''bad.ts'', luauAST = None\<rparr>] ! 1 =
     \<lparr>diagnostics = [exampleError], sourceFile = ''bad.ts'', source = None\<rparr>"
  using render_stage_pointwise[of "renderAST exampleEnv"
     "[\<lparr>diagnostics = [], sourceFile = ''a.ts'', luauAST = Some ''a.ts''\<rparr>,
       \<lparr>diagnostics = [exampleError], sourceFile = ''bad.ts'', luauAST = None\<rparr>]"
     "\<lambda>ast. ''unused''"]
  by (simp add: exampleEnv_def renderStage_def renderResult_def)

text \<open>
  Claim C10. In what \<^verbatim>\<open>compileFilesParallelPhase2\<close> returns, a result's AST, and so its
  rendered text, is absent exactly when the result's diagnostics contain an Error; in
  particular a result that carries text has no Error diagnostic.
\<close>

theorem absent_iff_error:
  assumes "compileFilesParallelPhase2 env sourceFiles st = Inr (results, st')"
  shows "\<exists>astResults.
           transformStage env sourceFiles st = Inr (astResults, st') \<and>
           results = renderStage (renderAST env) astResults \<and>
           (\<forall>a \<in> set astResults. luauAST a = None \<longleftrightarrow> hasErrors (diagnostics a)) \<and>
           (\<forall>r \<in> set results.
              (source r = None \<longleftrightarrow> hasErrors (diagnostics r)) \<and>
              (source r \<noteq> None \<longrightarrow> \<not> hasErrors (diagnostics r)))"
proof -
  from assms obtain astResults where
    t: "transformStage env sourceFiles st = Inr (astResults, st')" and
    r: "results = renderStage (renderAST env) astResults"
    by (auto simp add: compileFilesParallelPhase2_Inr)
  have inv: "\<forall>a \<in> set astResults. luauAST a = None \<longleftrightarrow> hasErrors (diagnostics a)"
    using t transformStage_invariant by blast
  then have "\<forall>r \<in> set results. source r = None \<longleftrightarrow> hasErrors (diagnostics r)"
    unfolding r using renderStage_absent_iff by blast
  with t r inv show ?thesis by (intro exI[of _ astResults]) simp
qed

theorem absent_iff_error_witness:
  "compileFilesParallelPhase2 exampleEnv [''a.ts'', ''bad.ts'', ''b.ts''] (0, []) =
     Inr ([\<lparr>diagnostics = [], sourceFile = ''a.ts'', source = Some ''-- a.ts''\<rparr>,
           \<lparr>diagnostics = [exampleError], sourceFile = ''bad.ts'', source = None\<rparr>],
          (2, [])) \<and>
   \<not> hasErrors [] \<and> hasErrors [exampleError]"
  using absent_iff_error[OF example_compile] example_compile by auto

section \<open>Claims about the orchestrator\<close>

text \<open>
  Claim C2. Whenever the diagnostics of the run's result contain an Error, the result has
  \<^verbatim>\<open>emitSkipped: true\<close> and no \<^verbatim>\<open>emittedFiles\<close>, and the run has written nothing: the
  file system and the console are those before the run, also when earlier units were
  rendered successfully. This covers both early returns, the one after Step 0 and the
  one after the aggregation of the per-unit diagnostics.
\<close>

theorem errors_withhold_emission:
  assumes "compileAndWriteFilesParallel env t0 t1 sourceFiles w = Some (Inr (res, w'))"
    and "hasErrors (diagnostics res)"
  shows "emitSkipped res \<and> emittedFiles res = None \<and>
         fileSystem w' = fileSystem w \<and> console w' = console w"
proof (cases "DiagnosticService_hasErrors (diagnosticService w)")
  case True
  from orchestrator_dirty[OF True, of env t0 t1 sourceFiles] assms(1)
  show ?thesis by auto
next
  case False
  show ?thesis
  proof (cases "compileFilesParallelPhase2 env sourceFiles (transformState w, diagnosticService w)")
    case (Inl e)
    from orchestrator_thrown[OF False Inl, of t0 t1] assms(1) show ?thesis by simp
  next
    case (Inr p)
    obtain results ts' sink' where p: "p = (results, (ts', sink'))" by (cases p) auto
    note run = Inr[unfolded p]
    show ?thesis
    proof (cases "hasErrors (concat (map diagnostics results))")
      case True
      from orchestrator_failed[OF False run True, of t0 t1] assms(1) show ?thesis by auto
    next
      case clean: False
      from orchestrator_success[OF False run clean, of t0 t1] assms(1)
      have "diagnostics res = concat (map diagnostics results)" by auto
      with clean assms(2) show ?thesis by simp
    qed
  qed
qed

theorem errors_withhold_emission_witness:
  "compileAndWriteFilesParallel exampleEnv 0 5 [''a.ts'', ''bad.ts'', ''b.ts''] exampleWorld =
     Some (Inr (\<lparr>diagnostics = [exampleError], emitSkipped = True, emittedFiles = None\<rparr>,
                exampleWorld\<lparr>transformState := 2, diagnosticService := []\<rparr>)) \<and>
   hasErrors [exampleError] \<and>
   fileSystem (exampleWorld\<lparr>transformState := 2, diagnosticService := []\<rparr>) = fileSystem exampleWorld"
proof -
  have e: "hasErrors (diagnostics \<lparr>diagnostics = [exampleError], emitSkipped = True,
                                  emittedFiles = (None :: string list option)\<rparr>)"
    by (simp add: hasErrors_def exampleError_def)
  from errors_withhold_emission[OF example_run_failed e] example_run_failed e
  show ?thesis by simp
qed

text \<open>
  Claim C3 fails on the code for a unit whose rendered text is the empty string: the
  guard \<^verbatim>\<open>if (result.source)\<close> treats it like \<open>null\<close>. With \<^verbatim>\<open>writeOnlyChanged\<close> unset and
  no file at the destination, the text is present, yet nothing is written, no path is
  recorded, and the statistics count the unit as successful and as skipped.
\<close>

theorem empty_text_not_written:
  "compileFilesParallelPhase2 emptyRenderEnv [''a.ts''] (0, []) =
     Inr ([\<lparr>diagnostics = [], sourceFile = ''a.ts'', source = Some ''''\<rparr>], (1, [])) \<and>
   writeOnlyChanged emptyRenderEnv = False \<and>
   fileSystem exampleWorld ''a.ts.luau'' = None \<and>
   compileAndWriteFilesParallel emptyRenderEnv 0 5 [''a.ts''] exampleWorld =
     Some (Inr (\<lparr>diagnostics = [], emitSkipped = False, emittedFiles = Some []\<rparr>,
                exampleWorld\<lparr>transformState := 1, console :=
                  [\<lparr>total = 1, successful = 1, failed = 0, totalDiagnostics = 0, totalTime = 5,
                    average = Finite 5, writtenFiles = 0, skippedFiles = 1\<rparr>]\<rparr>))"
proof -
  have a: "\<not> DiagnosticService_hasErrors (diagnosticService exampleWorld)"
    by (simp add: DiagnosticService_hasErrors_def hasErrors_def exampleWorld_def)
  have c: "compileFilesParallelPhase2 emptyRenderEnv [''a.ts'']
             (transformState exampleWorld, diagnosticService exampleWorld) =
           Inr ([\<lparr>diagnostics = [], sourceFile = ''a.ts'', source = Some ''''\<rparr>], (1, []))"
    using emptyRender_compile by (simp add: exampleWorld_def)
  have n: "\<not> hasErrors (concat (map diagnostics
             [\<lparr>diagnostics = [], sourceFile = ''a.ts'', source = Some ''''\<rparr>]))"
    by (simp add: hasErrors_def)
  from orchestrator_success[OF a c n, of 0 5] emptyRender_compile
  show ?thesis
    by (simp add: write_defs emptyRenderEnv_def exampleEnv_def exampleWorld_def)
qed







text \<open>
  The condition on the rendered texts is needed as well: when the transformer's output
  depends on the state that the first run left behind, the second run renders another
  text and writes it.
\<close>

lemma drifting_transformer_rewritten:
  "writeOnlyChanged driftingEnv \<and>
   compileAndWriteFilesParallel driftingEnv 0 5 [''a.ts''] exampleWorld =
     Some (Inr (\<lparr>diagnostics = [], emitSkipped = False, emittedFiles = Some [''a.ts.luau'']\<rparr>,
                \<lparr>transformState = 1, diagnosticService = [],
                  fileSystem = [''a.ts.luau'' \<mapsto> ''-- a.ts''],
                  console = [\<lparr>total = 1, successful = 1, failed = 0, totalDiagnostics = 0,
                              totalTime = 5, average = Finite 5, writtenFiles = 1,
                              skippedFiles = 0\<rparr>]\<rparr>)) \<and>
   compileAndWriteFilesParallel driftingEnv 10 15 [''a.ts'']
     \<lparr>transformState = 1, diagnosticService = [],
       fileSystem = [''a.ts.luau'' \<mapsto> ''-- a.ts''],
       console = [\<lparr>total = 1, successful = 1, failed = 0, totalDiagnostics = 0,
                   totalTime = 5, average = Finite 5, writtenFiles = 1, skippedFiles = 0\<rparr>]\<rparr> =
     Some (Inr (\<lparr>diagnostics = [], emitSkipped = False, emittedFiles = Some [''a.ts.luau'']\<rparr>,
                \<lparr>transformState = 2, diagnosticService = [],
                  fileSystem = [''a.ts.luau'' \<mapsto> ''-- a.ts!''],
                  console = [\<lparr>total = 1, successful = 1, failed = 0, totalDiagnostics = 0,
                              totalTime = 5, average = Finite 5, writtenFiles = 1,
                              skippedFiles = 0\<rparr>,
                             \<lparr>total = 1, successful = 1, failed = 0, totalDiagnostics = 0,
                              totalTime = 5, average = Finite 5, writtenFiles = 1,
                              skippedFiles = 0\<rparr>]\<rparr>))"
proof -
  let ?w1 = "\<lparr>transformState = 1 :: nat, diagnosticService = [],
       fileSystem = [''a.ts.luau'' \<mapsto> ''-- a.ts''],
       console = [\<lparr>total = 1, successful = 1, failed = 0, totalDiagnostics = 0,
                   totalTime = 5, average = Finite 5, writtenFiles = 1, skippedFiles = 0\<rparr>]\<rparr>"
  have c1: "compileFilesParallelPhase2 driftingEnv [''a.ts'']
              (transformState exampleWorld, diagnosticService exampleWorld) =
            Inr ([\<lparr>diagnostics = [], sourceFile = ''a.ts'', source = Some ''-- a.ts''\<rparr>], (1, []))"
    by (simp add: pipeline_defs driftingEnv_def exampleEnv_def exampleWorld_def)
  have c2: "compileFilesParallelPhase2 driftingEnv [''a.ts'']
              (transformState ?w1, diagnosticService ?w1) =
            Inr ([\<lparr>diagnostics = [], sourceFile = ''a.ts'', source = Some ''-- a.ts!''\<rparr>], (2, []))"
    by (simp add: pipeline_defs driftingEnv_def exampleEnv_def)
  have n1: "\<not> hasErrors (concat (map diagnostics
      [\<lparr>diagnostics = [], sourceFile = ''a.ts'', source = Some ''-- a.ts''\<rparr>]))"
    by (simp add: hasErrors_def)
  have n2: "\<not> hasErrors (concat (map diagnostics
      [\<lparr>diagnostics = [], sourceFile = ''a.ts'', source = Some ''-- a.ts!''\<rparr>]))"
    by (simp add: hasErrors_def)
  have clean2: "\<not> DiagnosticService_hasErrors (diagnosticService ?w1)"
    by (simp add: DiagnosticService_hasErrors_def hasErrors_def)
  have f: "writeOnlyChanged driftingEnv"
    by (simp add: driftingEnv_def exampleEnv_def)
  from orchestrator_success[OF example_clean c1 n1, of 0 5]
  have r1: "compileAndWriteFilesParallel driftingEnv 0 5 [''a.ts''] exampleWorld =
     Some (Inr (\<lparr>diagnostics = [], emitSkipped = False, emittedFiles = Some [''a.ts.luau'']\<rparr>, ?w1))"
    by (simp add: write_defs Let_def driftingEnv_def exampleEnv_def exampleWorld_def)
  from orchestrator_success[OF clean2 c2 n2, of 10 15]
  have r2: "compileAndWriteFilesParallel driftingEnv 10 15 [''a.ts''] ?w1 =
     Some (Inr (\<lparr>diagnostics = [], emitSkipped = False, emittedFiles = Some [''a.ts.luau'']\<rparr>,
                \<lparr>transformState = 2, diagnosticService = [],
                  fileSystem = [''a.ts.luau'' \<mapsto> ''-- a.ts!''],
                  console = [\<lparr>total = 1, successful = 1, failed = 0, totalDiagnostics = 0,
                              totalTime = 5, average = Finite 5, writtenFiles = 1,
                              skippedFiles = 0\<rparr>,
                             \<lparr>total = 1, successful = 1, failed = 0, totalDiagnostics = 0,
                              totalTime = 5, average = Finite 5, writtenFiles = 1,
                              skippedFiles = 0\<rparr>]\<rparr>))"
    by (simp add: write_defs Let_def driftingEnv_def exampleEnv_def)
  from f r1 r2 show ?thesis by simp
qed



text \<open>
  Claim C8, as amended. For the empty unit sequence, when the diagnostic sink holds no
  Error as the stages start, the run returns \<^verbatim>\<open>emitSkipped: false\<close>, no diagnostics and an
  empty list of emitted files; nothing is thrown, and only the console changes.
\<close>

theorem empty_run:
  fixes env :: "('sf, 'ast, 'ts, 'p) collaborators"
  assumes "\<not> DiagnosticService_hasErrors (diagnosticService w)"
  shows "compileAndWriteFilesParallel env t0 t1 [] w =
           Some (Inr (\<lparr>diagnostics = [], emitSkipped = False, emittedFiles = Some []\<rparr>,
                      w\<lparr>console := console w @
                          [makeReport ([] :: 'sf CompileResult list) [] ([] :: 'p list) (t1 - t0)]\<rparr>))"
proof -
  have c: "compileFilesParallelPhase2 env [] (transformState w, diagnosticService w) =
           Inr ([], (transformState w, diagnosticService w))"
    by (simp add: compileFilesParallelPhase2_def transformStage_Nil renderStage_def)
  have n: "\<not> hasErrors (concat (map diagnostics ([] :: 'sf CompileResult list)))"
    by (simp add: hasErrors_def)
  from orchestrator_success[OF assms c n, of t0 t1]
  show ?thesis by (simp add: nonNull_Nil)
qed

theorem empty_run_witness:
  "compileAndWriteFilesParallel exampleEnv 1000 1007 [] exampleWorld =
     Some (Inr (\<lparr>diagnostics = [], emitSkipped = False, emittedFiles = Some []\<rparr>,
                exampleWorld\<lparr>console :=
                  [makeReport ([] :: string CompileResult list) [] ([] :: string list) 7]\<rparr>))"
proof -
  have a: "\<not> DiagnosticService_hasErrors (diagnosticService exampleWorld)"
    by (simp add: DiagnosticService_hasErrors_def hasErrors_def exampleWorld_def)
  from empty_run[OF a, of exampleEnv 1000 1007] show ?thesis
    by (simp add: exampleWorld_def)
qed

text \<open>
  The counterexample to claim C8 as stated: when the sink already holds an Error, the
  guard that follows Step 0 returns \<^verbatim>\<open>emitSkipped: true\<close> with the flushed diagnostics, for
  the empty unit sequence as for any other.
\<close>

theorem dirty_sink_skips_empty_run:
  "DiagnosticService_hasErrors (diagnosticService dirtyWorld) \<and>
   compileAndWriteFilesParallel exampleEnv 0 5 [] dirtyWorld =
     Some (Inr (\<lparr>diagnostics = [exampleError], emitSkipped = True, emittedFiles = None\<rparr>,
                exampleWorld))"
proof -
  have d: "DiagnosticService_hasErrors (diagnosticService dirtyWorld)"
    by (simp add: DiagnosticService_hasErrors_def hasErrors_def dirtyWorld_def exampleWorld_def
        exampleError_def)
  from orchestrator_dirty[OF d, of exampleEnv 0 5 "[]"] d
  show ?thesis by (simp add: dirtyWorld_def exampleWorld_def)
qed




end
